theory Spec2Isabelle
  imports Main "HOL-Library.Word"
begin

unbundle bit_operations_syntax

section \<open>The memory management unit of gomeboycolor (src/mmu/mmu.go)\<close>

text \<open>
  The embedding follows \<^verbatim>\<open>mmu.go\<close> function by function. Addresses are
  \<^verbatim>\<open>types.Word\<close>, an unsigned 16-bit integer whose arithmetic wraps; bytes are 8-bit
  words. The fixed-size Go arrays of the struct are lists, and every index expression is
  checked against the length of the array as the Go runtime does: an index out of range
  is a panic, a value of the model. A call through the nil cartridge pointer is a panic
  too. Calls to \<^verbatim>\<open>log\<close> and \<^verbatim>\<open>fmt\<close> only print and are left out.
\<close>

type_synonym byte = "8 word"
type_synonym Word = "16 word"

datatype panic = NilPointerDereference | IndexOutOfRange

datatype error = ROMIsBiggerThanRegion

subsection \<open>The external collaborators\<close>

text \<open>
  The cartridge (\<^verbatim>\<open>*cartridge.Cartridge\<close>, used through its \<^verbatim>\<open>MBC\<close>) and the
  peripherals (\<^verbatim>\<open>components.Peripheral\<close>) are objects owned outside the MMU. The MMU
  holds references to them: a reference is a natural number, the objects live in a heap,
  and their methods are parameters of the model. A method gets the object and returns
  the object as the call left it. Every registered peripheral reference points to an
  object, and the methods of the collaborators return.
\<close>

record ('c, 'p) externals =
  MBC_Write :: "Word \<Rightarrow> byte \<Rightarrow> 'c \<Rightarrow> 'c"
  MBC_Read :: "Word \<Rightarrow> 'c \<Rightarrow> byte \<times> 'c"
  Peripheral_Write :: "Word \<Rightarrow> byte \<Rightarrow> 'p \<Rightarrow> 'p"
  Peripheral_Read :: "Word \<Rightarrow> 'p \<Rightarrow> byte \<times> 'p"

record ('c, 'p) heap =
  carts :: "nat \<Rightarrow> 'c"
  periphs :: "nat \<Rightarrow> 'p"

subsection \<open>The struct\<close>

record GbcMMU =
  bios :: "byte list"
  cartridge :: "nat option"
  internalRAM :: "byte list"
  internalRAMShadow :: "byte list"
  emptySpace :: "byte list"
  zeroPageRAM :: "byte list"
  inBootMode :: bool
  dmgStatusRegister :: byte
  interruptsEnabled :: byte
  interruptsFlag :: byte
  peripheralIOMap :: "Word \<rightharpoonup> nat"

text \<open>The array lengths the struct declares: 256, 8192, 7680, 52 and 128 bytes.\<close>

definition array_sizes :: "GbcMMU \<Rightarrow> bool" where
  "array_sizes mmu \<longleftrightarrow>
     length (bios mmu) = 256 \<and>
     length (internalRAM mmu) = 8192 \<and>
     length (internalRAMShadow mmu) = 7680 \<and>
     length (emptySpace mmu) = 52 \<and>
     length (zeroPageRAM mmu) = 128"

text \<open>Indexing a Go array: the runtime panics when the index is not below the length.\<close>

definition array_get :: "byte list \<Rightarrow> nat \<Rightarrow> panic + byte" where
  "array_get xs i = (if i < length xs then Inr (xs ! i) else Inl IndexOutOfRange)"

definition array_set :: "byte list \<Rightarrow> nat \<Rightarrow> byte \<Rightarrow> panic + byte list" where
  "array_set xs i v = (if i < length xs then Inr (xs[i := v]) else Inl IndexOutOfRange)"

text \<open>Sequencing: a panic ends the run, otherwise the next statement gets the result.\<close>

definition and_then :: "panic + 'a \<Rightarrow> ('a \<Rightarrow> panic + 'b) \<Rightarrow> panic + 'b" where
  "and_then r f = (case r of Inl e \<Rightarrow> Inl e | Inr x \<Rightarrow> f x)"

subsection \<open>Reset and NewGbcMMU\<close>

definition Reset :: "GbcMMU \<Rightarrow> GbcMMU" where
  "Reset mmu = mmu\<lparr>inBootMode := True, interruptsFlag := 0x00\<rparr>"

text \<open>\<^verbatim>\<open>new(GbcMMU)\<close> is the zero value of the struct; the map is made empty.\<close>

definition NewGbcMMU :: GbcMMU where
  "NewGbcMMU = Reset
     \<lparr>bios = replicate 256 0,
      cartridge = None,
      internalRAM = replicate 8192 0,
      internalRAMShadow = replicate 7680 0,
      emptySpace = replicate 52 0,
      zeroPageRAM = replicate 128 0,
      inBootMode = False,
      dmgStatusRegister = 0,
      interruptsEnabled = 0,
      interruptsFlag = 0,
      peripheralIOMap = Map.empty\<rparr>"

subsection \<open>WriteByte\<close>

text \<open>\<^verbatim>\<open>mmu.cartridge.MBC.Write(addr, value)\<close>: dereferences the cartridge pointer.\<close>

definition cartridge_MBC_Write ::
  "('c, 'p) externals \<Rightarrow> GbcMMU \<Rightarrow> ('c, 'p) heap \<Rightarrow> Word \<Rightarrow> byte \<Rightarrow> panic + ('c, 'p) heap" where
  "cartridge_MBC_Write X mmu h addr v =
     (case cartridge mmu of
        None \<Rightarrow> Inl NilPointerDereference
      | Some c \<Rightarrow> Inr (h\<lparr>carts := (carts h)(c := MBC_Write X addr v (carts h c))\<rparr>))"

definition cartridge_MBC_Read ::
  "('c, 'p) externals \<Rightarrow> GbcMMU \<Rightarrow> ('c, 'p) heap \<Rightarrow> Word \<Rightarrow> panic + (byte \<times> ('c, 'p) heap)" where
  "cartridge_MBC_Read X mmu h addr =
     (case cartridge mmu of
        None \<Rightarrow> Inl NilPointerDereference
      | Some c \<Rightarrow>
          Inr (fst (MBC_Read X addr (carts h c)),
               h\<lparr>carts := (carts h)(c := snd (MBC_Read X addr (carts h c)))\<rparr>))"

definition WriteByte ::
  "('c, 'p) externals \<Rightarrow> GbcMMU \<times> ('c, 'p) heap \<Rightarrow> Word \<Rightarrow> byte \<Rightarrow>
     panic + (GbcMMU \<times> ('c, 'p) heap)" where
  "WriteByte X st addr v =
     (case st of (mmu, h) \<Rightarrow>
       (case peripheralIOMap mmu addr of
          Some p \<Rightarrow>
            Inr (mmu, h\<lparr>periphs := (periphs h)(p := Peripheral_Write X addr v (periphs h p))\<rparr>)
        | None \<Rightarrow>
            if addr \<ge> 0x0000 \<and> addr \<le> 0x9FFF then
              and_then (cartridge_MBC_Write X mmu h addr v) (\<lambda>h'. Inr (mmu, h'))
            else if addr \<ge> 0xA000 \<and> addr \<le> 0xBFFF then
              and_then (cartridge_MBC_Write X mmu h addr v) (\<lambda>h'. Inr (mmu, h'))
            else if addr \<ge> 0xC000 \<and> addr \<le> 0xDFFF then
              and_then (array_set (internalRAM mmu) (unat (addr AND (0xDFFF - 0xC000))) v)
                (\<lambda>ram.
                  if addr \<ge> 0xC000 \<and> addr \<le> 0xDDFF then
                    and_then
                      (array_set (internalRAMShadow mmu) (unat (addr AND (0xDDFF - 0xC000))) v)
                      (\<lambda>shadow. Inr (mmu\<lparr>internalRAM := ram, internalRAMShadow := shadow\<rparr>, h))
                  else Inr (mmu\<lparr>internalRAM := ram\<rparr>, h))
            else if addr = 0xFF0F then
              Inr (mmu\<lparr>interruptsFlag := v\<rparr>, h)
            else if addr \<ge> 0xFF4C \<and> addr \<le> 0xFF7F then
              (if addr = 0xFF50 then Inr (mmu\<lparr>dmgStatusRegister := v\<rparr>, h)
               else
                 and_then (array_set (emptySpace mmu) (unat (addr - 0xFF4D)) v)
                   (\<lambda>es. Inr (mmu\<lparr>emptySpace := es\<rparr>, h)))
            else if addr \<ge> 0xFF80 \<and> addr \<le> 0xFFFF then
              (if addr = 0xFFFF then Inr (mmu\<lparr>interruptsEnabled := v\<rparr>, h)
               else
                 and_then (array_set (zeroPageRAM mmu) (unat (addr AND (0xFFFF - 0xFF80))) v)
                   (\<lambda>zp. Inr (mmu\<lparr>zeroPageRAM := zp\<rparr>, h)))
            else Inr (mmu, h)))"

subsection \<open>ReadByte\<close>

definition ReadByte ::
  "('c, 'p) externals \<Rightarrow> GbcMMU \<times> ('c, 'p) heap \<Rightarrow> Word \<Rightarrow>
     panic + (byte \<times> (GbcMMU \<times> ('c, 'p) heap))" where
  "ReadByte X st addr =
     (case st of (mmu, h) \<Rightarrow>
       (case peripheralIOMap mmu addr of
          Some p \<Rightarrow>
            Inr (fst (Peripheral_Read X addr (periphs h p)),
                 (mmu, h\<lparr>periphs := (periphs h)(p := snd (Peripheral_Read X addr (periphs h p)))\<rparr>))
        | None \<Rightarrow>
            if addr \<ge> 0x0000 \<and> addr \<le> 0x3FFF then
              (if inBootMode mmu \<and> addr < 0x0100 then
                 and_then (array_get (bios mmu) (unat addr)) (\<lambda>b. Inr (b, (mmu, h)))
               else
                 and_then (cartridge_MBC_Read X mmu h addr) (\<lambda>(b, h'). Inr (b, (mmu, h'))))
            else if addr \<ge> 0x4000 \<and> addr \<le> 0x7FFF then
              and_then (cartridge_MBC_Read X mmu h addr) (\<lambda>(b, h'). Inr (b, (mmu, h')))
            else if addr \<ge> 0xA000 \<and> addr \<le> 0xBFFF then
              and_then (cartridge_MBC_Read X mmu h addr) (\<lambda>(b, h'). Inr (b, (mmu, h')))
            else if addr \<ge> 0xC000 \<and> addr \<le> 0xDFFF then
              and_then (array_get (internalRAM mmu) (unat (addr AND (0xDFFF - 0xC000))))
                (\<lambda>b. Inr (b, (mmu, h)))
            else if addr \<ge> 0xE000 \<and> addr \<le> 0xFDFF then
              and_then (array_get (internalRAMShadow mmu) (unat (addr AND (0xFDFF - 0xE000))))
                (\<lambda>b. Inr (b, (mmu, h)))
            else if addr = 0xFF0F then
              Inr (interruptsFlag mmu, (mmu, h))
            else if addr \<ge> 0xFF4C \<and> addr \<le> 0xFF7F then
              (if addr = 0xFF50 then Inr (dmgStatusRegister mmu, (mmu, h))
               else
                 and_then (array_get (emptySpace mmu) (unat (addr - 0xFF4C)))
                   (\<lambda>b. Inr (b, (mmu, h))))
            else if addr \<ge> 0xFF80 \<and> addr \<le> 0xFFFF then
              (if addr = 0xFFFF then Inr (interruptsEnabled mmu, (mmu, h))
               else
                 and_then (array_get (zeroPageRAM mmu) (unat (addr AND (0xFFFF - 0xFF80))))
                   (\<lambda>b. Inr (b, (mmu, h))))
            else Inr (0x00, (mmu, h))))"

subsection \<open>ReadWord and WriteWord\<close>

text \<open>
  Modelled from the spec: \<^verbatim>\<open>utils.JoinBytes\<close> and \<^verbatim>\<open>utils.SplitIntoBytes\<close> are
  functions of this repository whose source is not at hand. The spec calls the word
  operations little-endian over \<^verbatim>\<open>addr\<close> and \<^verbatim>\<open>addr+1\<close>, so the first byte
  is the low-order one in both.
\<close>

definition JoinBytes :: "byte \<Rightarrow> byte \<Rightarrow> Word" where
  "JoinBytes b1 b2 = push_bit 8 (ucast b2) OR ucast b1"

definition SplitIntoBytes :: "Word \<Rightarrow> byte \<times> byte" where
  "SplitIntoBytes w = (ucast (w AND 0x00FF), ucast (drop_bit 8 w))"

definition ReadWord ::
  "('c, 'p) externals \<Rightarrow> GbcMMU \<times> ('c, 'p) heap \<Rightarrow> Word \<Rightarrow>
     panic + (Word \<times> (GbcMMU \<times> ('c, 'p) heap))" where
  "ReadWord X st addr =
     and_then (ReadByte X st addr) (\<lambda>(b1, st1).
     and_then (ReadByte X st1 (addr + 1)) (\<lambda>(b2, st2).
       Inr (JoinBytes b1 b2, st2)))"

definition WriteWord ::
  "('c, 'p) externals \<Rightarrow> GbcMMU \<times> ('c, 'p) heap \<Rightarrow> Word \<Rightarrow> Word \<Rightarrow>
     panic + (GbcMMU \<times> ('c, 'p) heap)" where
  "WriteWord X st addr w =
     (case SplitIntoBytes w of (b1, b2) \<Rightarrow>
        and_then (WriteByte X st addr b1) (\<lambda>st1. WriteByte X st1 (addr + 1) b2))"

subsection \<open>SetInBootMode, ConnectPeripheral, LoadBIOS, LoadCartridge\<close>

definition SetInBootMode :: "GbcMMU \<Rightarrow> bool \<Rightarrow> GbcMMU" where
  "SetInBootMode mmu mode = mmu\<lparr>inBootMode := mode\<rparr>"

text \<open>
  The loop \<^verbatim>\<open>for addr := startAddr; addr <= endAddr; addr++\<close> counts in a 16-bit
  word. It may run forever, so it is a partial function: \<open>None\<close> is the run that never
  returns.
\<close>

partial_function (option) ConnectPeripheral_loop ::
  "(Word \<rightharpoonup> nat) \<Rightarrow> nat \<Rightarrow> Word \<Rightarrow> Word \<Rightarrow> (Word \<rightharpoonup> nat) option" where
  "ConnectPeripheral_loop m p addr endAddr =
     (if addr \<le> endAddr then ConnectPeripheral_loop (m(addr \<mapsto> p)) p (addr + 1) endAddr
      else Some m)"

definition ConnectPeripheral :: "GbcMMU \<Rightarrow> nat \<Rightarrow> Word \<Rightarrow> Word \<Rightarrow> GbcMMU option" where
  "ConnectPeripheral mmu p startAddr endAddr =
     (if startAddr = endAddr then
        Some (mmu\<lparr>peripheralIOMap := (peripheralIOMap mmu)(startAddr \<mapsto> p)\<rparr>)
      else
        (case ConnectPeripheral_loop (peripheralIOMap mmu) p startAddr endAddr of
           None \<Rightarrow> None
         | Some m \<Rightarrow> Some (mmu\<lparr>peripheralIOMap := m\<rparr>)))"

text \<open>\<^verbatim>\<open>for i, b := range data { mmu.bios[i] = b }\<close>\<close>

fun LoadBIOS_loop :: "byte list \<Rightarrow> nat \<Rightarrow> byte list \<Rightarrow> panic + byte list" where
  "LoadBIOS_loop bs i [] = Inr bs"
| "LoadBIOS_loop bs i (b # data) = and_then (array_set bs i b) (\<lambda>bs'. LoadBIOS_loop bs' (Suc i) data)"

text \<open>The Go function returns \<^verbatim>\<open>(bool, error)\<close>; \<open>None\<close> is the nil error.\<close>

definition LoadBIOS :: "GbcMMU \<Rightarrow> byte list \<Rightarrow> panic + ((bool \<times> error option) \<times> GbcMMU)" where
  "LoadBIOS mmu data =
     (if length data > length (bios mmu) then Inr ((False, Some ROMIsBiggerThanRegion), mmu)
      else
        and_then (LoadBIOS_loop (bios mmu) 0 data)
          (\<lambda>bs. Inr ((True, None), mmu\<lparr>bios := bs\<rparr>)))"

definition LoadCartridge :: "GbcMMU \<Rightarrow> nat \<Rightarrow> GbcMMU" where
  "LoadCartridge mmu cart = mmu\<lparr>cartridge := Some cart\<rparr>"

subsection \<open>Concrete collaborators for the worked instances\<close>

text \<open>
  A cartridge and peripherals that record every write delegated to them and answer every
  read with the last byte written to them (zero when there is none).
\<close>

definition recording :: "((Word \<times> byte) list, (Word \<times> byte) list) externals" where
  "recording =
     \<lparr>MBC_Write = (\<lambda>a v c. c @ [(a, v)]),
      MBC_Read = (\<lambda>a c. (if c = [] then 0 else snd (last c), c)),
      Peripheral_Write = (\<lambda>a v p. p @ [(a, v)]),
      Peripheral_Read = (\<lambda>a p. (if p = [] then 0 else snd (last p), p))\<rparr>"

definition blank_heap :: "((Word \<times> byte) list, (Word \<times> byte) list) heap" where
  "blank_heap = \<lparr>carts = (\<lambda>_. []), periphs = (\<lambda>_. [])\<rparr>"

section \<open>Properties\<close>

lemma array_sizes_NewGbcMMU: "array_sizes NewGbcMMU"
  by (simp add: array_sizes_def NewGbcMMU_def Reset_def)

subsection \<open>Index arithmetic\<close>

lemma unat_and_le: "unat (a AND m) \<le> unat (m :: Word)"
  using word_and_le1[of a m] by (simp only: word_le_nat_alt)

lemma unat_and_ram: "unat (a AND (0xDFFF - 0xC000 :: Word)) < 8192"
  using unat_and_le[of a "0x1FFF"] by simp

lemma unat_and_shadow: "unat (a AND (0xDDFF - 0xC000 :: Word)) < 7680"
  using unat_and_le[of a "0x1DFF"] by simp

lemma unat_and_zero_page: "unat (a AND (0xFFFF - 0xFF80 :: Word)) < 128"
  using unat_and_le[of a "0x7F"] by simp

text \<open>Within a RAM window the masked index is the offset from the start of the window.\<close>

lemma le_top: "(a :: Word) \<le> 0xFFFF"
proof -
  have "(0xFFFF :: Word) = - 1" by simp
  then show ?thesis by (simp only: word_n1_ge)
qed

lemma unat_ram_index:
  assumes "0xC000 \<le> a" "a \<le> 0xDFFF"
  shows "unat (a AND (0xDFFF - 0xC000 :: Word)) = unat a - 0xC000"
proof -
  have "(0x1FFF :: Word) = mask 13" by (simp add: mask_eq_exp_minus_1)
  then have "a AND (0x1FFF :: Word) = take_bit 13 a" by (simp add: take_bit_eq_mask)
  then have m: "unat (a AND (0x1FFF :: Word)) = unat a mod 8192"
    by (simp add: take_bit_eq_mod unat_mod_distrib)
  have b: "49152 \<le> unat a" "unat a \<le> 57343"
    using assms by (simp_all add: word_le_nat_alt)
  define k where "k = unat a - 49152"
  have k: "unat a = k + 6 * 8192" "k < 8192" using b by (simp_all add: k_def)
  have "(k + 6 * 8192) mod 8192 = k mod 8192" by (rule mod_mult_self1)
  with k have "unat a mod 8192 = unat a - 49152" by (simp add: k_def)
  with m show ?thesis by simp
qed

lemma unat_zero_page_index:
  assumes "0xFF80 \<le> a"
  shows "unat (a AND (0xFFFF - 0xFF80 :: Word)) = unat a - 0xFF80"
proof -
  have "(0x7F :: Word) = mask 7" by (simp add: mask_eq_exp_minus_1)
  then have "a AND (0x7F :: Word) = take_bit 7 a" by (simp add: take_bit_eq_mask)
  then have m: "unat (a AND (0x7F :: Word)) = unat a mod 128"
    by (simp add: take_bit_eq_mod unat_mod_distrib)
  have b: "65408 \<le> unat a" "unat a \<le> 65535"
    using assms le_top[of a] by (simp_all add: word_le_nat_alt)
  define k where "k = unat a - 65408"
  have k: "unat a = k + 511 * 128" "k < 128" using b by (simp_all add: k_def)
  have "(k + 511 * 128) mod 128 = k mod 128" by (rule mod_mult_self1)
  with k have "unat a mod 128 = unat a - 65408" by (simp add: k_def)
  with m show ?thesis by simp
qed


lemma unat_succ:
  assumes "(a :: Word) \<le> 0xFFFE"
  shows "unat (a + 1) = unat a + 1"
  using assms by (simp add: word_le_nat_alt unat_word_ariths)

lemma take_bit_13_echo: "take_bit 13 (a + 0x2000 :: Word) = take_bit 13 a"
  by transfer (simp add: take_bit_eq_mod mod_simps)

text \<open>
  The echo window and the mirrored part of work RAM use the same mask, \<open>0x1DFF\<close>, and
  the two addresses differ by \<open>0x2000\<close>, a bit the mask drops: both index the same cell.
\<close>

lemma echo_index: "(a + 0x2000) AND (0xFDFF - 0xE000 :: Word) = a AND (0xDDFF - 0xC000)"
proof -
  have m: "x AND (0x1DFF :: Word) = take_bit 13 x AND 0x1DFF" for x
  proof -
    have "(0x1DFF :: Word) = take_bit 13 0x1DFF" by simp
    then have "x AND (0x1DFF :: Word) = x AND take_bit 13 0x1DFF" by simp
    also have "\<dots> = take_bit 13 x AND 0x1DFF"
      by (simp only: take_bit_eq_mask and.assoc and.commute and.left_commute)
    finally show ?thesis .
  qed
  have "(a + 0x2000) AND (0x1DFF :: Word) = take_bit 13 (a + 0x2000) AND 0x1DFF"
    by (rule m)
  also have "\<dots> = a AND 0x1DFF" by (simp only: take_bit_13_echo m[symmetric])
  finally show ?thesis by simp
qed

text \<open>The mask has bit 9 clear: two addresses that differ in that bit share a cell.\<close>

lemma echo_index_drops_bit_9:
  "(a XOR 0x0200) AND (0xDDFF - 0xC000 :: Word) = a AND (0xDDFF - 0xC000)"
  by (simp add: bit.conj_xor_distrib2)

subsection \<open>Work RAM and its echo\<close>

lemma WriteByte_work_RAM:
  assumes "array_sizes mmu" "peripheralIOMap mmu a = None" "0xC000 \<le> a" "a \<le> 0xDFFF"
  shows "WriteByte X (mmu, h) a v =
    Inr (if a \<le> 0xDDFF
         then mmu\<lparr>internalRAM := (internalRAM mmu)[unat (a AND (0xDFFF - 0xC000)) := v],
                  internalRAMShadow := (internalRAMShadow mmu)[unat (a AND (0xDDFF - 0xC000)) := v]\<rparr>
         else mmu\<lparr>internalRAM := (internalRAM mmu)[unat (a AND (0xDFFF - 0xC000)) := v]\<rparr>, h)"
proof -
  have r: "\<not> a \<le> 0x9FFF" "\<not> a \<le> 0xBFFF"
    using assms(3) by (simp_all add: word_le_nat_alt)
  have l: "length (internalRAM mmu) = 8192" "length (internalRAMShadow mmu) = 7680"
    using assms(1) by (simp_all add: array_sizes_def)
  show ?thesis
    using assms(2-4) r unat_and_ram[of a] unat_and_shadow[of a]
    by (simp add: WriteByte_def and_then_def array_set_def l del: word_and_le1)
qed

lemma ReadByte_work_RAM:
  assumes "array_sizes mmu" "peripheralIOMap mmu a = None" "0xC000 \<le> a" "a \<le> 0xDFFF"
  shows "ReadByte X (mmu, h) a = Inr (internalRAM mmu ! unat (a AND (0xDFFF - 0xC000)), (mmu, h))"
proof -
  have r: "\<not> a \<le> 0x3FFF" "\<not> a \<le> 0x7FFF" "\<not> a \<le> 0xBFFF"
    using assms(3) by (simp_all add: word_le_nat_alt)
  have l: "length (internalRAM mmu) = 8192"
    using assms(1) by (simp add: array_sizes_def)
  show ?thesis
    using assms(2-4) r unat_and_ram[of a]
    by (simp add: ReadByte_def and_then_def array_get_def l)
qed

lemma ReadByte_echo:
  assumes "array_sizes mmu" "peripheralIOMap mmu a = None" "0xE000 \<le> a" "a \<le> 0xFDFF"
  shows "ReadByte X (mmu, h) a =
    Inr (internalRAMShadow mmu ! unat (a AND (0xFDFF - 0xE000)), (mmu, h))"
proof -
  have r: "\<not> a \<le> 0x3FFF" "\<not> a \<le> 0x7FFF" "\<not> a \<le> 0xBFFF" "\<not> a \<le> 0xDFFF"
    using assms(3) by (simp_all add: word_le_nat_alt)
  have l: "length (internalRAMShadow mmu) = 7680"
    using assms(1) by (simp add: array_sizes_def)
  have "unat (a AND (0xFDFF - 0xE000)) < 7680"
    using unat_and_shadow[of a] by simp
  then show ?thesis
    using assms(2-4) r
    by (simp add: ReadByte_def and_then_def array_get_def l)
qed

subsection \<open>The loop of ConnectPeripheral\<close>

lemma ConnectPeripheral_loop_Some_end:
  assumes "ConnectPeripheral_loop m p addr endAddr = Some r"
  shows "endAddr \<noteq> 0xFFFF"
proof (rule ConnectPeripheral_loop.raw_induct
    [where P = "\<lambda>m p addr endAddr r. endAddr \<noteq> 0xFFFF", OF _ assms])
  fix loop :: "(Word \<rightharpoonup> nat) \<Rightarrow> nat \<Rightarrow> Word \<Rightarrow> Word \<Rightarrow> (Word \<rightharpoonup> nat) option"
  fix m p addr endAddr r
  assume IH: "\<And>m p addr endAddr r. loop m p addr endAddr = Some r \<Longrightarrow> endAddr \<noteq> 0xFFFF"
  assume step:
    "(if addr \<le> endAddr then loop (m(addr \<mapsto> p)) p (addr + 1) endAddr else Some m) = Some r"
  show "endAddr \<noteq> 0xFFFF"
  proof (cases "addr \<le> endAddr")
    case True
    with step have "loop (m(addr \<mapsto> p)) p (addr + 1) endAddr = Some r" by simp
    then show ?thesis by (rule IH)
  next
    case False
    show ?thesis
    proof
      assume "endAddr = 0xFFFF"
      moreover have "(0xFFFF :: Word) = - 1" by simp
      ultimately have "addr \<le> endAddr" by (simp only: word_n1_ge)
      with False show False by simp
    qed
  qed
qed

text \<open>With \<open>endAddr = 0xFFFF\<close> the test \<open>addr \<le> endAddr\<close> never fails: no return.\<close>

lemma ConnectPeripheral_loop_diverges: "ConnectPeripheral_loop m p addr 0xFFFF = None"
proof (cases "ConnectPeripheral_loop m p addr 0xFFFF")
  case None
  then show ?thesis .
next
  case (Some r)
  then have "(0xFFFF :: Word) \<noteq> 0xFFFF" by (rule ConnectPeripheral_loop_Some_end)
  then show ?thesis by simp
qed

text \<open>Below \<open>0xFFFF\<close> the loop returns, with exactly the inclusive range bound.\<close>

lemma ConnectPeripheral_loop_returns:
  "endAddr < 0xFFFF \<Longrightarrow>
   ConnectPeripheral_loop m p addr endAddr =
     Some (\<lambda>a. if addr \<le> a \<and> a \<le> endAddr then Some p else m a)"
proof (induction "Suc (unat endAddr) - unat addr" arbitrary: m addr)
  case 0
  then have gt: "\<not> addr \<le> endAddr" by (simp add: word_le_nat_alt)
  then have "(\<lambda>a. if addr \<le> a \<and> a \<le> endAddr then Some p else m a) = m"
    by (auto simp: fun_eq_iff)
  with gt show ?case by (simp add: ConnectPeripheral_loop.simps)
next
  case (Suc n)
  then have le: "addr \<le> endAddr" by (simp add: word_le_nat_alt)
  have lt: "unat addr < 65535"
    using le Suc.prems by (simp add: word_le_nat_alt word_less_nat_alt)
  then have u: "unat (addr + 1) = unat addr + 1" by (simp add: unat_word_ariths)
  with Suc(2) have "n = Suc (unat endAddr) - unat (addr + 1)" by simp
  then have "ConnectPeripheral_loop (m(addr \<mapsto> p)) p (addr + 1) endAddr =
     Some (\<lambda>a. if addr + 1 \<le> a \<and> a \<le> endAddr then Some p else (m(addr \<mapsto> p)) a)"
    using Suc.prems by (rule Suc(1))
  moreover have "(\<lambda>a. if addr + 1 \<le> a \<and> a \<le> endAddr then Some p else (m(addr \<mapsto> p)) a) =
     (\<lambda>a. if addr \<le> a \<and> a \<le> endAddr then Some p else m a)"
    using le u by (auto simp: fun_eq_iff word_le_nat_alt word_unat_eq_iff)
  ultimately show ?case using le by (subst ConnectPeripheral_loop.simps) simp
qed

lemma ConnectPeripheral_returns:
  assumes "startAddr \<le> endAddr" "endAddr < 0xFFFF \<or> startAddr = endAddr"
  shows "ConnectPeripheral mmu p startAddr endAddr =
    Some (mmu\<lparr>peripheralIOMap :=
      (\<lambda>a. if startAddr \<le> a \<and> a \<le> endAddr then Some p else peripheralIOMap mmu a)\<rparr>)"
proof (cases "startAddr = endAddr")
  case True
  then have "(peripheralIOMap mmu)(startAddr \<mapsto> p) =
      (\<lambda>a. if startAddr \<le> a \<and> a \<le> endAddr then Some p else peripheralIOMap mmu a)"
    by (auto simp: fun_eq_iff)
  with True show ?thesis by (simp add: ConnectPeripheral_def)
next
  case False
  with assms(2) have "endAddr < 0xFFFF" by simp
  then show ?thesis using False
    by (simp add: ConnectPeripheral_def ConnectPeripheral_loop_returns)
qed

lemma NewGbcMMU_fields:
  "bios NewGbcMMU = replicate 256 0" "cartridge NewGbcMMU = None"
  "internalRAM NewGbcMMU = replicate 8192 0" "internalRAMShadow NewGbcMMU = replicate 7680 0"
  "emptySpace NewGbcMMU = replicate 52 0" "zeroPageRAM NewGbcMMU = replicate 128 0"
  "inBootMode NewGbcMMU = True" "peripheralIOMap NewGbcMMU = Map.empty"
  by (simp_all add: NewGbcMMU_def Reset_def)

subsection \<open>What the operations keep\<close>

lemma WriteByte_keeps:
  assumes "array_sizes mmu" "WriteByte X (mmu, h) a v = Inr (mmu', h')"
  shows "array_sizes mmu' \<and> peripheralIOMap mmu' = peripheralIOMap mmu \<and>
    cartridge mmu' = cartridge mmu"
  using assms
  by (auto simp: WriteByte_def and_then_def array_set_def array_sizes_def
      cartridge_MBC_Write_def split: option.splits if_splits)

lemma ReadByte_keeps:
  assumes "ReadByte X (mmu, h) a = Inr (b, (mmu', h'))"
  shows "mmu' = mmu"
  using assms
  by (auto simp: ReadByte_def and_then_def array_get_def cartridge_MBC_Read_def
      split: option.splits if_splits)

lemma Reset_array_sizes: "array_sizes (Reset mmu) = array_sizes mmu"
  by (simp add: array_sizes_def Reset_def)

lemma LoadBIOS_loop_length:
  "LoadBIOS_loop bs i data = Inr bs' \<Longrightarrow> length bs' = length bs"
proof (induction data arbitrary: bs i)
  case Nil
  then show ?case by simp
next
  case (Cons b data)
  from Cons.prems have lt: "i < length bs"
    by (auto simp: array_set_def and_then_def split: if_splits)
  with Cons.prems have "LoadBIOS_loop (bs[i := b]) (Suc i) data = Inr bs'"
    by (simp add: array_set_def and_then_def)
  then have "length bs' = length (bs[i := b])" by (rule Cons.IH)
  then show ?case by simp
qed

lemma LoadBIOS_array_sizes:
  assumes "array_sizes mmu" "LoadBIOS mmu data = Inr (r, mmu')"
  shows "array_sizes mmu'"
proof (cases "length data > length (bios mmu)")
  case True
  with assms show ?thesis by (simp add: LoadBIOS_def)
next
  case False
  with assms(2) obtain bs where b: "LoadBIOS_loop (bios mmu) 0 data = Inr bs"
    and m: "mmu' = mmu\<lparr>bios := bs\<rparr>"
    by (auto simp: LoadBIOS_def and_then_def split: sum.splits)
  from b have "length bs = length (bios mmu)" by (rule LoadBIOS_loop_length)
  with assms(1) m show ?thesis by (simp add: array_sizes_def)
qed

subsection \<open>The graphics window \<open>0x8000\<close> to \<open>0x9FFF\<close>\<close>

text \<open>
  With no peripheral bound, a write there reaches the cartridge: the first case of the
  switch in \<open>WriteByte\<close> runs up to \<open>0x9FFF\<close>. \<open>ReadByte\<close> has no case for the
  window and answers \<open>0x00\<close>.
\<close>

lemma WriteByte_graphics_window_delegates:
  assumes "peripheralIOMap mmu a = None" "cartridge mmu = Some c" "0x8000 \<le> a" "a \<le> 0x9FFF"
  shows "WriteByte X (mmu, h) a v =
    Inr (mmu, h\<lparr>carts := (carts h)(c := MBC_Write X a v (carts h c))\<rparr>)"
  using assms by (simp add: WriteByte_def and_then_def cartridge_MBC_Write_def)

lemma ReadByte_graphics_window_unmapped:
  assumes "peripheralIOMap mmu a = None" "0x8000 \<le> a" "a \<le> 0x9FFF"
  shows "ReadByte X (mmu, h) a = Inr (0x00, (mmu, h))"
proof -
  have r: "\<not> a \<le> 0x3FFF" "\<not> a \<le> 0x7FFF" "\<not> 0xA000 \<le> a" "\<not> 0xC000 \<le> a"
    "\<not> 0xE000 \<le> a" "a \<noteq> 0xFF0F" "\<not> 0xFF4C \<le> a" "\<not> 0xFF80 \<le> a"
    using assms(2,3) by (auto simp add: word_le_nat_alt)
  show ?thesis using assms(1) r by (simp add: ReadByte_def)
qed

subsection \<open>The reserved scratch \<open>0xFF4C\<close> to \<open>0xFF7F\<close>\<close>

text \<open>
  \<open>WriteByte\<close> indexes \<open>emptySpace\<close> at \<open>addr - 0xFF4D\<close>, \<open>ReadByte\<close> at
  \<open>addr - 0xFF4C\<close>. At \<open>0xFF4C\<close> the write index wraps to \<open>0xFFFF\<close>.
\<close>

lemma WriteByte_0xFF4C_panics:
  assumes "array_sizes mmu" "peripheralIOMap mmu 0xFF4C = None"
  shows "WriteByte X (mmu, h) 0xFF4C v = Inl IndexOutOfRange"
proof -
  have l: "length (emptySpace mmu) = 52" using assms(1) by (simp add: array_sizes_def)
  show ?thesis using assms(2)
    by (simp add: WriteByte_def and_then_def array_set_def l
        unsigned_minus_1_eq_mask mask_eq_exp_minus_1)
qed

lemma WriteByte_scratch:
  assumes "array_sizes mmu" "peripheralIOMap mmu a = None"
    "0xFF4D \<le> a" "a \<le> 0xFF7F" "a \<noteq> 0xFF50"
  shows "WriteByte X (mmu, h) a v =
    Inr (mmu\<lparr>emptySpace := (emptySpace mmu)[unat (a - 0xFF4D) := v]\<rparr>, h)"
proof -
  have r: "\<not> a \<le> 0x9FFF" "\<not> a \<le> 0xBFFF" "\<not> a \<le> 0xDFFF" "a \<noteq> 0xFF0F" "0xFF4C \<le> a"
    using assms(3) by (auto simp add: word_le_nat_alt)
  have "unat (a - 0xFF4D) = unat a - 0xFF4D"
    using assms(3) by (simp add: word_le_nat_alt unat_sub_if')
  then have i: "unat (a - 0xFF4D) < 52" using assms(4) by (simp add: word_le_nat_alt)
  have l: "length (emptySpace mmu) = 52" using assms(1) by (simp add: array_sizes_def)
  show ?thesis using assms(2,4,5) r i
    by (simp add: WriteByte_def and_then_def array_set_def l)
qed

lemma ReadByte_scratch:
  assumes "array_sizes mmu" "peripheralIOMap mmu a = None"
    "0xFF4C \<le> a" "a \<le> 0xFF7F" "a \<noteq> 0xFF50"
  shows "ReadByte X (mmu, h) a = Inr (emptySpace mmu ! unat (a - 0xFF4C), (mmu, h))"
proof -
  have r: "\<not> a \<le> 0x3FFF" "\<not> a \<le> 0x7FFF" "\<not> a \<le> 0xBFFF" "\<not> a \<le> 0xDFFF"
    "\<not> a \<le> 0xFDFF" "a \<noteq> 0xFF0F"
    using assms(3) by (auto simp add: word_le_nat_alt)
  have "unat (a - 0xFF4C) = unat a - 0xFF4C"
    using assms(3) by (simp add: word_le_nat_alt unat_sub_if')
  then have i: "unat (a - 0xFF4C) < 52" using assms(4) by (simp add: word_le_nat_alt)
  have l: "length (emptySpace mmu) = 52" using assms(1) by (simp add: array_sizes_def)
  show ?thesis using assms(2,3,4,5) r i
    by (simp add: ReadByte_def and_then_def array_get_def l)
qed

text \<open>The byte read back is the one the next cell held before the write.\<close>

lemma scratch_read_misses_write:
  assumes "array_sizes mmu" "peripheralIOMap mmu a = None"
    "0xFF4D \<le> a" "a \<le> 0xFF7F" "a \<noteq> 0xFF50"
  shows "\<exists>st'. WriteByte X (mmu, h) a v = Inr st' \<and>
     ReadByte X st' a = Inr (emptySpace mmu ! unat (a - 0xFF4C), st')"
proof -
  let ?mmu' = "mmu\<lparr>emptySpace := (emptySpace mmu)[unat (a - 0xFF4D) := v]\<rparr>"
  have w: "WriteByte X (mmu, h) a v = Inr (?mmu', h)" by (rule WriteByte_scratch[OF assms])
  have s: "array_sizes ?mmu'" using assms(1) by (simp add: array_sizes_def)
  have p: "peripheralIOMap ?mmu' a = None" using assms(2) by simp
  have le: "0xFF4C \<le> a" using assms(3) by (simp add: word_le_nat_alt)
  have ne: "unat (a - 0xFF4D) \<noteq> unat (a - 0xFF4C)"
    using assms(3) by (simp add: word_le_nat_alt unat_sub_if')
  have "ReadByte X (?mmu', h) a = Inr (emptySpace ?mmu' ! unat (a - 0xFF4C), (?mmu', h))"
    by (rule ReadByte_scratch[OF s p le assms(4,5)])
  also have "emptySpace ?mmu' ! unat (a - 0xFF4C) = emptySpace mmu ! unat (a - 0xFF4C)"
    using ne by simp
  finally show ?thesis using w by simp
qed

subsection \<open>Where WriteByte returns\<close>

text \<open>
  With a cartridge loaded, \<open>0xFF4C\<close> is the only address whose write can panic: every
  other index is within its array.
\<close>

lemma WriteByte_returns:
  assumes "array_sizes mmu" "cartridge mmu = Some c" "a \<noteq> 0xFF4C"
  shows "\<exists>st'. WriteByte X (mmu, h) a v = Inr st'"
proof (cases "peripheralIOMap mmu a")
  case (Some p)
  then show ?thesis by (simp add: WriteByte_def)
next
  case None
  have l: "length (internalRAM mmu) = 8192" "length (internalRAMShadow mmu) = 7680"
    "length (emptySpace mmu) = 52" "length (zeroPageRAM mmu) = 128"
    using assms(1) by (simp_all add: array_sizes_def)
  have e: "unat (a - 0xFF4D) < 52" if "0xFF4C \<le> a" "a \<le> 0xFF7F"
  proof -
    from that(1) assms(3) have "0xFF4D \<le> a" by (simp add: word_le_nat_alt word_unat_eq_iff)
    then have "unat (a - 0xFF4D) = unat a - 0xFF4D" by (simp add: word_le_nat_alt unat_sub_if')
    then show ?thesis using that(2) by (simp add: word_le_nat_alt)
  qed
  show ?thesis
    using None assms(2) unat_and_ram[of a] unat_and_shadow[of a] unat_and_zero_page[of a] e
    by (simp add: WriteByte_def and_then_def array_set_def cartridge_MBC_Write_def l
        del: word_and_le1)
qed

text \<open>A write at an echo address itself matches no case and changes nothing.\<close>

lemma WriteByte_echo_dropped:
  assumes "peripheralIOMap mmu a = None" "0xE000 \<le> a" "a \<le> 0xFDFF"
  shows "WriteByte X (mmu, h) a v = Inr (mmu, h)"
proof -
  have r: "\<not> a \<le> 0x9FFF" "\<not> a \<le> 0xBFFF" "\<not> a \<le> 0xDFFF" "a \<noteq> 0xFF0F"
    "\<not> 0xFF4C \<le> a" "\<not> 0xFF80 \<le> a"
    using assms(2,3) by (auto simp add: word_le_nat_alt)
  show ?thesis using assms(1) r by (simp add: WriteByte_def)
qed

subsection \<open>LoadBIOS\<close>

lemma LoadBIOS_loop_copies:
  "i + length data \<le> length bs \<Longrightarrow>
   LoadBIOS_loop bs i data = Inr (take i bs @ data @ drop (i + length data) bs)"
proof (induction data arbitrary: bs i)
  case Nil
  then show ?case by simp
next
  case (Cons b data)
  then have lt: "i < length bs" by simp
  have "LoadBIOS_loop (bs[i := b]) (Suc i) data =
      Inr (take (Suc i) (bs[i := b]) @ data @ drop (Suc i + length data) (bs[i := b]))"
    using Cons.prems by (intro Cons.IH) simp
  moreover have "take (Suc i) (bs[i := b]) = take i bs @ [b]"
    using lt by (simp add: take_Suc_conv_app_nth)
  ultimately show ?case using lt by (simp add: array_set_def and_then_def)
qed

subsection \<open>Joining and splitting bytes\<close>

lemma JoinBytes_low: "(ucast (JoinBytes b1 b2) :: byte) = b1"
  unfolding JoinBytes_def
  by (rule bit_word_eqI) (auto simp: bit_simps)

lemma JoinBytes_high: "(ucast (drop_bit 8 (JoinBytes b1 b2)) :: byte) = b2"
  unfolding JoinBytes_def
  by (rule bit_word_eqI) (auto simp: bit_simps dest: bit_imp_le_length)

lemma SplitIntoBytes_eq: "SplitIntoBytes w = (ucast w, ucast (drop_bit 8 w))"
proof -
  have "(0x00FF :: Word) = mask 8" by (simp add: mask_eq_exp_minus_1)
  then have "(ucast (w AND 0x00FF) :: byte) = ucast (w AND mask 8)" by simp
  also have "\<dots> = ucast w"
    by (rule bit_word_eqI) (auto simp: bit_simps)
  finally have "(ucast (w AND 0x00FF) :: byte) = ucast w" .
  then show ?thesis by (simp add: SplitIntoBytes_def)
qed

lemma JoinBytes_SplitIntoBytes:
  "JoinBytes (fst (SplitIntoBytes w)) (snd (SplitIntoBytes w)) = w"
  unfolding SplitIntoBytes_eq JoinBytes_def
  by (rule bit_word_eqI) (auto simp: bit_simps)

subsection \<open>Word writes in the two RAM windows\<close>

text \<open>
  Zero-page RAM from \<open>0xFF80\<close> and the interrupt-enable register at \<open>0xFFFF\<close>
  store a byte and return it, as work RAM does. A word written with both bytes in one of
  these windows is read back byte by byte.
\<close>

lemma WriteByte_high_RAM:
  assumes "array_sizes mmu" "peripheralIOMap mmu a = None" "0xFF80 \<le> a"
  shows "WriteByte X (mmu, h) a v =
    Inr (if a = 0xFFFF then mmu\<lparr>interruptsEnabled := v\<rparr>
         else mmu\<lparr>zeroPageRAM := (zeroPageRAM mmu)[unat (a AND (0xFFFF - 0xFF80)) := v]\<rparr>, h)"
proof -
  have r: "\<not> a \<le> 0x9FFF" "\<not> a \<le> 0xBFFF" "\<not> a \<le> 0xDFFF" "a \<noteq> 0xFF0F" "\<not> a \<le> 0xFF7F"
    using assms(3) by (auto simp add: word_le_nat_alt)
  have l: "length (zeroPageRAM mmu) = 128" using assms(1) by (simp add: array_sizes_def)
  show ?thesis using assms(2,3) r le_top[of a] unat_and_zero_page[of a]
    by (simp add: WriteByte_def and_then_def array_set_def l)
qed

lemma ReadByte_high_RAM:
  assumes "array_sizes mmu" "peripheralIOMap mmu a = None" "0xFF80 \<le> a"
  shows "ReadByte X (mmu, h) a =
    Inr (if a = 0xFFFF then interruptsEnabled mmu
         else zeroPageRAM mmu ! unat (a AND (0xFFFF - 0xFF80)), (mmu, h))"
proof -
  have r: "\<not> a \<le> 0x3FFF" "\<not> a \<le> 0x7FFF" "\<not> a \<le> 0xBFFF" "\<not> a \<le> 0xDFFF"
    "\<not> a \<le> 0xFDFF" "a \<noteq> 0xFF0F" "\<not> a \<le> 0xFF7F"
    using assms(3) by (auto simp add: word_le_nat_alt)
  have l: "length (zeroPageRAM mmu) = 128" using assms(1) by (simp add: array_sizes_def)
  show ?thesis using assms(2,3) r le_top[of a] unat_and_zero_page[of a]
    by (simp add: ReadByte_def and_then_def array_get_def l)
qed


lemma WriteByte_work_RAM_effect:
  assumes "array_sizes mmu" "peripheralIOMap mmu a = None" "0xC000 \<le> a" "a \<le> 0xDFFF"
  shows "\<exists>mmu'. WriteByte X (mmu, h) a v = Inr (mmu', h) \<and> array_sizes mmu' \<and>
    peripheralIOMap mmu' = peripheralIOMap mmu \<and>
    internalRAM mmu' = (internalRAM mmu)[unat a - 0xC000 := v]"
  using WriteByte_work_RAM[OF assms, of X h v] assms(1) unat_ram_index[OF assms(3,4)]
  by (simp add: array_sizes_def)

lemma WriteByte_high_RAM_effect:
  assumes "array_sizes mmu" "peripheralIOMap mmu a = None" "0xFF80 \<le> a"
  shows "\<exists>mmu'. WriteByte X (mmu, h) a v = Inr (mmu', h) \<and> array_sizes mmu' \<and>
    peripheralIOMap mmu' = peripheralIOMap mmu \<and>
    zeroPageRAM mmu' =
      (if a = 0xFFFF then zeroPageRAM mmu else (zeroPageRAM mmu)[unat a - 0xFF80 := v]) \<and>
    interruptsEnabled mmu' = (if a = 0xFFFF then v else interruptsEnabled mmu)"
  using WriteByte_high_RAM[OF assms, of X h v] assms(1) unat_zero_page_index[OF assms(3)]
  by (simp add: array_sizes_def)

lemma WriteWord_work_RAM:
  assumes "array_sizes mmu" "peripheralIOMap mmu a = None" "peripheralIOMap mmu (a + 1) = None"
    "0xC000 \<le> a" "a \<le> 0xDFFE"
  shows "\<exists>mmu'. WriteWord X (mmu, h) a v = Inr (mmu', h) \<and>
    ReadByte X (mmu', h) a = Inr (ucast v, (mmu', h)) \<and>
    ReadByte X (mmu', h) (a + 1) = Inr (ucast (drop_bit 8 v), (mmu', h))"
proof -
  have u: "unat (a + 1) = unat a + 1"
    using assms(5) by (intro unat_succ) (simp add: word_le_nat_alt)
  have a: "a \<le> 0xDFFF" using assms(5) by (simp add: word_le_nat_alt)
  have b: "0xC000 \<le> a + 1" "a + 1 \<le> 0xDFFF"
    using assms(4,5) u by (simp_all add: word_le_nat_alt)
  have n: "49152 \<le> unat a" "unat a \<le> 57342"
    using assms(4,5) by (simp_all add: word_le_nat_alt)
  obtain m1 where w1: "WriteByte X (mmu, h) a (ucast v) = Inr (m1, h)"
    and s1: "array_sizes m1" and p1: "peripheralIOMap m1 = peripheralIOMap mmu"
    and r1: "internalRAM m1 = (internalRAM mmu)[unat a - 0xC000 := ucast v]"
    using WriteByte_work_RAM_effect[OF assms(1,2,4) a, of X h "ucast v"] by blast
  have q1: "peripheralIOMap m1 (a + 1) = None" using p1 assms(3) by simp
  obtain m2 where w2: "WriteByte X (m1, h) (a + 1) (ucast (drop_bit 8 v)) = Inr (m2, h)"
    and s2: "array_sizes m2" and p2: "peripheralIOMap m2 = peripheralIOMap m1"
    and r2: "internalRAM m2 = (internalRAM m1)[unat (a + 1) - 0xC000 := ucast (drop_bit 8 v)]"
    using WriteByte_work_RAM_effect[OF s1 q1 b, of X h "ucast (drop_bit 8 v)"] by blast
  have l: "length (internalRAM mmu) = 8192" using assms(1) by (simp add: array_sizes_def)
  have ww: "WriteWord X (mmu, h) a v = Inr (m2, h)"
    using w1 w2 by (simp add: WriteWord_def SplitIntoBytes_eq and_then_def)
  have g1: "peripheralIOMap m2 a = None" using p2 p1 assms(2) by simp
  have g2: "peripheralIOMap m2 (a + 1) = None" using p2 p1 assms(3) by simp
  have "ReadByte X (m2, h) a = Inr (internalRAM m2 ! (unat a - 0xC000), (m2, h))"
    using ReadByte_work_RAM[OF s2 g1 assms(4) a, of X h] unat_ram_index[OF assms(4) a] by simp
  moreover have "internalRAM m2 ! (unat a - 0xC000) = ucast v"
    using r1 r2 u n l by simp
  moreover have "ReadByte X (m2, h) (a + 1) = Inr (internalRAM m2 ! (unat (a + 1) - 0xC000), (m2, h))"
    using ReadByte_work_RAM[OF s2 g2 b, of X h] unat_ram_index[OF b] by simp
  moreover have "internalRAM m2 ! (unat (a + 1) - 0xC000) = ucast (drop_bit 8 v)"
    using r1 r2 u n l by simp
  ultimately show ?thesis using ww by simp
qed

lemma WriteWord_high_RAM:
  assumes "array_sizes mmu" "peripheralIOMap mmu a = None" "peripheralIOMap mmu (a + 1) = None"
    "0xFF80 \<le> a" "a \<le> 0xFFFE"
  shows "\<exists>mmu'. WriteWord X (mmu, h) a v = Inr (mmu', h) \<and>
    ReadByte X (mmu', h) a = Inr (ucast v, (mmu', h)) \<and>
    ReadByte X (mmu', h) (a + 1) = Inr (ucast (drop_bit 8 v), (mmu', h))"
proof -
  have u: "unat (a + 1) = unat a + 1" using assms(5) by (rule unat_succ)
  have b: "0xFF80 \<le> a + 1"
    using assms(4) u by (simp add: word_le_nat_alt)
  have n: "65408 \<le> unat a" "unat a \<le> 65534"
    using assms(4,5) by (simp_all add: word_le_nat_alt)
  have ne: "a \<noteq> 0xFFFF" using n by (auto simp: word_unat_eq_iff)
  have top: "a + 1 = 0xFFFF \<longleftrightarrow> unat a = 65534"
    using u by (simp add: word_unat_eq_iff)
  obtain m1 where w1: "WriteByte X (mmu, h) a (ucast v) = Inr (m1, h)"
    and s1: "array_sizes m1" and p1: "peripheralIOMap m1 = peripheralIOMap mmu"
    and r1: "zeroPageRAM m1 = (zeroPageRAM mmu)[unat a - 0xFF80 := ucast v]"
    using WriteByte_high_RAM_effect[OF assms(1,2,4), of X h "ucast v"] ne by auto
  have q1: "peripheralIOMap m1 (a + 1) = None" using p1 assms(3) by simp
  obtain m2 where w2: "WriteByte X (m1, h) (a + 1) (ucast (drop_bit 8 v)) = Inr (m2, h)"
    and s2: "array_sizes m2" and p2: "peripheralIOMap m2 = peripheralIOMap m1"
    and r2: "zeroPageRAM m2 =
      (if a + 1 = 0xFFFF then zeroPageRAM m1
       else (zeroPageRAM m1)[unat (a + 1) - 0xFF80 := ucast (drop_bit 8 v)])"
    and e2: "interruptsEnabled m2 =
      (if a + 1 = 0xFFFF then ucast (drop_bit 8 v) else interruptsEnabled m1)"
    using WriteByte_high_RAM_effect[OF s1 q1 b, of X h "ucast (drop_bit 8 v)"] by blast
  have l: "length (zeroPageRAM mmu) = 128" using assms(1) by (simp add: array_sizes_def)
  have ww: "WriteWord X (mmu, h) a v = Inr (m2, h)"
    using w1 w2 by (simp add: WriteWord_def SplitIntoBytes_eq and_then_def)
  have g1: "peripheralIOMap m2 a = None" using p2 p1 assms(2) by simp
  have g2: "peripheralIOMap m2 (a + 1) = None" using p2 p1 assms(3) by simp
  have "ReadByte X (m2, h) a = Inr (zeroPageRAM m2 ! (unat a - 0xFF80), (m2, h))"
    using ReadByte_high_RAM[OF s2 g1 assms(4), of X h] unat_zero_page_index[OF assms(4)] ne
    by simp
  moreover have "zeroPageRAM m2 ! (unat a - 0xFF80) = ucast v"
    using r1 r2 u n l by simp
  moreover have "ReadByte X (m2, h) (a + 1) =
      Inr (if a + 1 = 0xFFFF then interruptsEnabled m2
           else zeroPageRAM m2 ! (unat (a + 1) - 0xFF80), (m2, h))"
    using ReadByte_high_RAM[OF s2 g2 b, of X h] unat_zero_page_index[OF b] by simp
  moreover have "(if a + 1 = 0xFFFF then interruptsEnabled m2
           else zeroPageRAM m2 ! (unat (a + 1) - 0xFF80)) = ucast (drop_bit 8 v)"
    using r1 r2 e2 u n l top by simp
  ultimately show ?thesis using ww by simp
qed


lemma JoinBytes_of_halves: "JoinBytes (ucast v) (ucast (drop_bit 8 v)) = v"
  using JoinBytes_SplitIntoBytes[of v] by (simp add: SplitIntoBytes_eq)

lemma ReadWord_of_bytes:
  assumes "ReadByte X st a = Inr (lo, st1)" "ReadByte X st1 (a + 1) = Inr (hi, st2)"
  shows "ReadWord X st a = Inr (JoinBytes lo hi, st2)"
  using assms by (simp add: ReadWord_def and_then_def)

section \<open>The claims\<close>

text \<open>
  C1. A read in \<open>[0xE000, 0xFDFF]\<close> should return the value of the last write at the
  address \<open>0x2000\<close> below it, whatever was written to other work-RAM addresses. On a new
  MMU, write \<open>0x01\<close> at \<open>0xC000\<close>, then \<open>0x02\<close> at \<open>0xC200\<close>: the mask \<open>0x1DFF\<close>
  drops bit 9, both writes land in cell 0 of the echo array, and the read at \<open>0xE000\<close>
  returns \<open>0x02\<close>, while work RAM at \<open>0xC000\<close> still holds \<open>0x01\<close>.
\<close>

theorem echo_cell_shared_by_two_addresses:
  "WriteByte recording (NewGbcMMU, blank_heap) 0xC000 0x01 =
     Inr (NewGbcMMU\<lparr>internalRAM := (internalRAM NewGbcMMU)[0 := 0x01],
                    internalRAMShadow := (internalRAMShadow NewGbcMMU)[0 := 0x01]\<rparr>,
          blank_heap) \<and>
   WriteByte recording
     (NewGbcMMU\<lparr>internalRAM := (internalRAM NewGbcMMU)[0 := 0x01],
                internalRAMShadow := (internalRAMShadow NewGbcMMU)[0 := 0x01]\<rparr>,
      blank_heap) 0xC200 0x02 =
     Inr (NewGbcMMU\<lparr>internalRAM := (internalRAM NewGbcMMU)[0 := 0x01, 0x200 := 0x02],
                    internalRAMShadow := (internalRAMShadow NewGbcMMU)[0 := 0x02]\<rparr>,
          blank_heap) \<and>
   ReadByte recording
     (NewGbcMMU\<lparr>internalRAM := (internalRAM NewGbcMMU)[0 := 0x01, 0x200 := 0x02],
                internalRAMShadow := (internalRAMShadow NewGbcMMU)[0 := 0x02]\<rparr>,
      blank_heap) 0xE000 =
     Inr (0x02,
       (NewGbcMMU\<lparr>internalRAM := (internalRAM NewGbcMMU)[0 := 0x01, 0x200 := 0x02],
                  internalRAMShadow := (internalRAMShadow NewGbcMMU)[0 := 0x02]\<rparr>,
        blank_heap)) \<and>
   ReadByte recording
     (NewGbcMMU\<lparr>internalRAM := (internalRAM NewGbcMMU)[0 := 0x01, 0x200 := 0x02],
                internalRAMShadow := (internalRAMShadow NewGbcMMU)[0 := 0x02]\<rparr>,
      blank_heap) 0xC000 =
     Inr (0x01,
       (NewGbcMMU\<lparr>internalRAM := (internalRAM NewGbcMMU)[0 := 0x01, 0x200 := 0x02],
                  internalRAMShadow := (internalRAMShadow NewGbcMMU)[0 := 0x02]\<rparr>,
        blank_heap))"
  by (simp add: WriteByte_def ReadByte_def and_then_def array_set_def array_get_def
      NewGbcMMU_fields)

text \<open>
  C2. A write in \<open>[0x8000, 0x9FFF]\<close> with no peripheral bound should be dropped and
  leave the cartridge as it was. With cartridge 0 loaded into a new MMU, the write of
  \<open>0x42\<close> at \<open>0x8000\<close> is handed to the cartridge, whose record of writes goes from
  empty to that one write.
\<close>

theorem graphics_window_write_reaches_cartridge:
  "WriteByte recording (LoadCartridge NewGbcMMU 0, blank_heap) 0x8000 0x42 =
     Inr (LoadCartridge NewGbcMMU 0,
          blank_heap\<lparr>carts := (carts blank_heap)(0 := [(0x8000, 0x42)])\<rparr>) \<and>
   carts blank_heap 0 = []"
  by (simp add: WriteByte_def and_then_def cartridge_MBC_Write_def LoadCartridge_def
      NewGbcMMU_fields recording_def blank_heap_def)

text \<open>
  C3. \<open>WriteByte\<close> should return for every address and byte. On a new MMU the write at
  \<open>0xFF4C\<close> indexes the 52-byte scratch array at \<open>0xFF4C - 0xFF4D\<close>, which is
  \<open>0xFFFF\<close> in 16 bits: the run ends in an index-out-of-range panic.
\<close>

theorem write_at_0xFF4C_panics:
  "WriteByte recording (NewGbcMMU, blank_heap) 0xFF4C 0x01 = Inl IndexOutOfRange"
  by (simp add: WriteByte_def and_then_def array_set_def NewGbcMMU_fields
      unsigned_minus_1_eq_mask mask_eq_exp_minus_1)

text \<open>
  C4. In the reserved scratch a write followed by a read at the same address should
  return the byte written. On a new MMU the write of \<open>0x07\<close> at \<open>0xFF4D\<close> goes to
  cell 0 of the scratch array, and the read at \<open>0xFF4D\<close> takes cell 1: it returns
  \<open>0x00\<close>.
\<close>

theorem scratch_write_then_read_returns_other_cell:
  "WriteByte recording (NewGbcMMU, blank_heap) 0xFF4D 0x07 =
     Inr (NewGbcMMU\<lparr>emptySpace := (emptySpace NewGbcMMU)[0 := 0x07]\<rparr>, blank_heap) \<and>
   ReadByte recording
     (NewGbcMMU\<lparr>emptySpace := (emptySpace NewGbcMMU)[0 := 0x07]\<rparr>, blank_heap) 0xFF4D =
     Inr (0x00, (NewGbcMMU\<lparr>emptySpace := (emptySpace NewGbcMMU)[0 := 0x07]\<rparr>, blank_heap))"
  by (simp add: WriteByte_def ReadByte_def and_then_def array_set_def array_get_def
      NewGbcMMU_fields)

text \<open>
  C5. For every address \<open>a\<close> in \<open>[0xC000, 0xDDFF]\<close> with no peripheral bound at \<open>a\<close> or
  at \<open>a + 0x2000\<close>, \<open>WriteByte(a, v)\<close> returns, and \<open>ReadByte(a + 0x2000)\<close> right
  after it returns \<open>v\<close>.
\<close>

theorem echo_reads_mirrored_write:
  assumes "array_sizes mmu"
    and "peripheralIOMap mmu a = None" and "peripheralIOMap mmu (a + 0x2000) = None"
    and "0xC000 \<le> a" and "a \<le> 0xDDFF"
  shows "\<exists>st'. WriteByte X (mmu, h) a v = Inr st' \<and> ReadByte X st' (a + 0x2000) = Inr (v, st')"
proof -
  let ?mmu' = "mmu\<lparr>internalRAM := (internalRAM mmu)[unat (a AND (0xDFFF - 0xC000)) := v],
      internalRAMShadow := (internalRAMShadow mmu)[unat (a AND (0xDDFF - 0xC000)) := v]\<rparr>"
  have le: "a \<le> 0xDFFF" using assms(5) by (simp add: word_le_nat_alt)
  have w: "WriteByte X (mmu, h) a v = Inr (?mmu', h)"
    using WriteByte_work_RAM[OF assms(1,2,4) le] assms(5) by simp
  have s: "array_sizes ?mmu'" using assms(1) by (simp add: array_sizes_def)
  have p: "peripheralIOMap ?mmu' (a + 0x2000) = None" using assms(3) by simp
  have e: "0xE000 \<le> a + 0x2000" "a + 0x2000 \<le> 0xFDFF"
    using assms(4,5) by (simp_all add: word_le_nat_alt unat_word_ariths)
  have l: "length (internalRAMShadow mmu) = 7680"
    using assms(1) by (simp add: array_sizes_def)
  have "ReadByte X (?mmu', h) (a + 0x2000) =
      Inr (internalRAMShadow ?mmu' ! unat ((a + 0x2000) AND (0xFDFF - 0xE000)), (?mmu', h))"
    by (rule ReadByte_echo[OF s p e])
  also have "internalRAMShadow ?mmu' ! unat ((a + 0x2000) AND (0xFDFF - 0xE000)) = v"
    using unat_and_shadow[of a] by (simp only: echo_index) (simp add: l)
  finally show ?thesis using w by simp
qed

theorem echo_reads_mirrored_write_witness:
  "array_sizes NewGbcMMU \<and> peripheralIOMap NewGbcMMU 0xC234 = None \<and>
   peripheralIOMap NewGbcMMU (0xC234 + 0x2000) = None \<and> (0xC000 :: Word) \<le> 0xC234 \<and>
   (0xC234 :: Word) \<le> 0xDDFF \<and>
   (\<exists>st'. WriteByte recording (NewGbcMMU, blank_heap) 0xC234 0x5A = Inr st' \<and>
      ReadByte recording st' (0xC234 + 0x2000) = Inr (0x5A, st'))"
proof -
  have h: "array_sizes NewGbcMMU" "peripheralIOMap NewGbcMMU 0xC234 = None"
    "peripheralIOMap NewGbcMMU (0xC234 + 0x2000) = None" "(0xC000 :: Word) \<le> 0xC234"
    "(0xC234 :: Word) \<le> 0xDDFF"
    by (simp_all add: array_sizes_def NewGbcMMU_def Reset_def)
  show ?thesis
    using h echo_reads_mirrored_write[OF h, of recording blank_heap "0x5A"] by simp
qed

text \<open>
  C6. For every address \<open>a\<close> in \<open>[0xC000, 0xDFFF]\<close> with no peripheral bound at \<open>a\<close>,
  \<open>WriteByte(a, v)\<close> returns, and \<open>ReadByte(a)\<close> after it returns \<open>v\<close>.
\<close>

theorem work_RAM_reads_own_write:
  assumes "array_sizes mmu" and "peripheralIOMap mmu a = None"
    and "0xC000 \<le> a" and "a \<le> 0xDFFF"
  shows "\<exists>st'. WriteByte X (mmu, h) a v = Inr st' \<and> ReadByte X st' a = Inr (v, st')"
proof -
  let ?i = "unat (a AND (0xDFFF - 0xC000))"
  let ?mmu' = "if a \<le> 0xDDFF
      then mmu\<lparr>internalRAM := (internalRAM mmu)[?i := v],
               internalRAMShadow := (internalRAMShadow mmu)[unat (a AND (0xDDFF - 0xC000)) := v]\<rparr>
      else mmu\<lparr>internalRAM := (internalRAM mmu)[?i := v]\<rparr>"
  have w: "WriteByte X (mmu, h) a v = Inr (?mmu', h)"
    by (rule WriteByte_work_RAM[OF assms])
  have s: "array_sizes ?mmu'" using assms(1) by (simp add: array_sizes_def)
  have p: "peripheralIOMap ?mmu' a = None" using assms(2) by simp
  have l: "length (internalRAM mmu) = 8192"
    using assms(1) by (simp add: array_sizes_def)
  have "ReadByte X (?mmu', h) a = Inr (internalRAM ?mmu' ! ?i, (?mmu', h))"
    by (rule ReadByte_work_RAM[OF s p assms(3,4)])
  also have "internalRAM ?mmu' ! ?i = v"
    using unat_and_ram[of a] by (simp add: l)
  finally show ?thesis using w by simp
qed

theorem work_RAM_reads_own_write_witness:
  "array_sizes NewGbcMMU \<and> peripheralIOMap NewGbcMMU 0xDE10 = None \<and>
   (0xC000 :: Word) \<le> 0xDE10 \<and> (0xDE10 :: Word) \<le> 0xDFFF \<and>
   (\<exists>st'. WriteByte recording (NewGbcMMU, blank_heap) 0xDE10 0x77 = Inr st' \<and>
      ReadByte recording st' 0xDE10 = Inr (0x77, st'))"
proof -
  have h: "array_sizes NewGbcMMU" "peripheralIOMap NewGbcMMU 0xDE10 = None"
    "(0xC000 :: Word) \<le> 0xDE10" "(0xDE10 :: Word) \<le> 0xDFFF"
    by (simp_all add: array_sizes_def NewGbcMMU_def Reset_def)
  show ?thesis
    using h work_RAM_reads_own_write[OF h, of recording blank_heap "0x77"] by simp
qed

text \<open>
  C7, as stated: for every address \<open>a\<close>, \<open>WriteWord(a, w)\<close> writes the low byte of
  \<open>w\<close> at \<open>a\<close> and the high byte at \<open>a + 1\<close>. The two byte writes go through
  \<open>WriteByte\<close>, which has no case for the echo window: on a new MMU the word
  \<open>0x1234\<close> written at \<open>0xE000\<close> leaves the MMU as it was, and the bytes at
  \<open>0xE000\<close> and \<open>0xE001\<close> read \<open>0x00\<close>.
\<close>

theorem word_write_at_echo_address_stores_nothing:
  "WriteWord recording (NewGbcMMU, blank_heap) 0xE000 0x1234 = Inr (NewGbcMMU, blank_heap) \<and>
   ReadByte recording (NewGbcMMU, blank_heap) 0xE000 = Inr (0x00, (NewGbcMMU, blank_heap)) \<and>
   ReadByte recording (NewGbcMMU, blank_heap) 0xE001 = Inr (0x00, (NewGbcMMU, blank_heap)) \<and>
   ReadByte recording (NewGbcMMU, blank_heap) 0xE000 \<noteq> Inr (0x34, (NewGbcMMU, blank_heap)) \<and>
   ReadByte recording (NewGbcMMU, blank_heap) 0xE001 \<noteq> Inr (0x12, (NewGbcMMU, blank_heap))"
  by (simp add: WriteWord_def SplitIntoBytes_def WriteByte_def ReadByte_def and_then_def
      array_get_def NewGbcMMU_fields)

text \<open>
  C7, as amended. When \<open>ReadByte(a)\<close> and then \<open>ReadByte(a + 1)\<close> return,
  \<open>ReadWord(a)\<close> returns the word whose low-order byte is the first and whose
  high-order byte is the second. For every address \<open>a\<close>, \<open>WriteWord(a, w)\<close> is
  \<open>WriteByte\<close> of the low byte of \<open>w\<close> at \<open>a\<close>, then \<open>WriteByte\<close> of the high
  byte at \<open>a + 1\<close>. When \<open>a\<close> and \<open>a + 1\<close> both lie in work RAM
  (\<open>0xC000\<close> to \<open>0xDFFF\<close>) or both in \<open>0xFF80\<close> to \<open>0xFFFF\<close>, with no peripheral
  bound at either, \<open>WriteWord(a, w)\<close> returns and stores both bytes: \<open>ReadByte(a)\<close>
  then returns the low byte of \<open>w\<close>, \<open>ReadByte(a + 1)\<close> the high byte, and
  \<open>ReadWord(a)\<close> returns \<open>w\<close>.
\<close>

theorem word_operations_little_endian:
  "(ReadByte X st a = Inr (lo, st') \<longrightarrow> ReadByte X st' (a + 1) = Inr (hi, st'') \<longrightarrow>
      (\<exists>w. ReadWord X st a = Inr (w, st'') \<and> (ucast w :: byte) = lo \<and>
         (ucast (drop_bit 8 w) :: byte) = hi)) \<and>
   WriteWord X st a v =
     and_then (WriteByte X st a (ucast v)) (\<lambda>s. WriteByte X s (a + 1) (ucast (drop_bit 8 v))) \<and>
   (array_sizes mmu \<longrightarrow> peripheralIOMap mmu b = None \<longrightarrow> peripheralIOMap mmu (b + 1) = None \<longrightarrow>
      (0xC000 \<le> b \<and> b \<le> 0xDFFE) \<or> (0xFF80 \<le> b \<and> b \<le> 0xFFFE) \<longrightarrow>
      (\<exists>mmu'. WriteWord X (mmu, h) b v = Inr (mmu', h) \<and>
         ReadByte X (mmu', h) b = Inr (ucast v, (mmu', h)) \<and>
         ReadByte X (mmu', h) (b + 1) = Inr (ucast (drop_bit 8 v), (mmu', h)) \<and>
         ReadWord X (mmu', h) b = Inr (v, (mmu', h))))"
proof (intro conjI impI)
  assume "ReadByte X st a = Inr (lo, st')" and "ReadByte X st' (a + 1) = Inr (hi, st'')"
  then have "ReadWord X st a = Inr (JoinBytes lo hi, st'')" by (rule ReadWord_of_bytes)
  then show "\<exists>w. ReadWord X st a = Inr (w, st'') \<and> (ucast w :: byte) = lo \<and>
      (ucast (drop_bit 8 w) :: byte) = hi"
    by (simp add: JoinBytes_low JoinBytes_high)
next
  show "WriteWord X st a v =
     and_then (WriteByte X st a (ucast v)) (\<lambda>s. WriteByte X s (a + 1) (ucast (drop_bit 8 v)))"
    by (simp add: WriteWord_def SplitIntoBytes_eq)
next
  assume s: "array_sizes mmu" and p: "peripheralIOMap mmu b = None"
    and q: "peripheralIOMap mmu (b + 1) = None"
    and w: "(0xC000 \<le> b \<and> b \<le> 0xDFFE) \<or> (0xFF80 \<le> b \<and> b \<le> 0xFFFE)"
  have "\<exists>mmu'. WriteWord X (mmu, h) b v = Inr (mmu', h) \<and>
      ReadByte X (mmu', h) b = Inr (ucast v, (mmu', h)) \<and>
      ReadByte X (mmu', h) (b + 1) = Inr (ucast (drop_bit 8 v), (mmu', h))"
    using w WriteWord_work_RAM[OF s p q] WriteWord_high_RAM[OF s p q] by blast
  then obtain mmu' where ww: "WriteWord X (mmu, h) b v = Inr (mmu', h)"
    and r1: "ReadByte X (mmu', h) b = Inr (ucast v, (mmu', h))"
    and r2: "ReadByte X (mmu', h) (b + 1) = Inr (ucast (drop_bit 8 v), (mmu', h))"
    by blast
  have "ReadWord X (mmu', h) b = Inr (v, (mmu', h))"
    using ReadWord_of_bytes[OF r1 r2] by (simp add: JoinBytes_of_halves)
  with ww r1 r2 show "\<exists>mmu'. WriteWord X (mmu, h) b v = Inr (mmu', h) \<and>
      ReadByte X (mmu', h) b = Inr (ucast v, (mmu', h)) \<and>
      ReadByte X (mmu', h) (b + 1) = Inr (ucast (drop_bit 8 v), (mmu', h)) \<and>
      ReadWord X (mmu', h) b = Inr (v, (mmu', h))"
    by blast
qed

theorem word_operations_little_endian_witness:
  "ReadByte recording
     (NewGbcMMU\<lparr>internalRAM := (internalRAM NewGbcMMU)[0 := 0x34, 1 := 0x12]\<rparr>, blank_heap)
     0xC000 =
     Inr (0x34,
       (NewGbcMMU\<lparr>internalRAM := (internalRAM NewGbcMMU)[0 := 0x34, 1 := 0x12]\<rparr>, blank_heap)) \<and>
   ReadByte recording
     (NewGbcMMU\<lparr>internalRAM := (internalRAM NewGbcMMU)[0 := 0x34, 1 := 0x12]\<rparr>, blank_heap)
     (0xC000 + 1) =
     Inr (0x12,
       (NewGbcMMU\<lparr>internalRAM := (internalRAM NewGbcMMU)[0 := 0x34, 1 := 0x12]\<rparr>, blank_heap)) \<and>
   (\<exists>w. ReadWord recording
          (NewGbcMMU\<lparr>internalRAM := (internalRAM NewGbcMMU)[0 := 0x34, 1 := 0x12]\<rparr>, blank_heap)
          0xC000 =
        Inr (w,
          (NewGbcMMU\<lparr>internalRAM := (internalRAM NewGbcMMU)[0 := 0x34, 1 := 0x12]\<rparr>,
           blank_heap)) \<and>
        (ucast w :: byte) = 0x34 \<and> (ucast (drop_bit 8 w) :: byte) = 0x12) \<and>
   array_sizes NewGbcMMU \<and>
   peripheralIOMap NewGbcMMU 0xC000 = None \<and> peripheralIOMap NewGbcMMU (0xC000 + 1) = None \<and>
   (0xC000 :: Word) \<le> 0xC000 \<and> (0xC000 :: Word) \<le> 0xDFFE \<and>
   (\<exists>mmu'. WriteWord recording (NewGbcMMU, blank_heap) 0xC000 0x1234 = Inr (mmu', blank_heap) \<and>
      ReadByte recording (mmu', blank_heap) 0xC000 = Inr (0x34, (mmu', blank_heap)) \<and>
      ReadByte recording (mmu', blank_heap) (0xC000 + 1) = Inr (0x12, (mmu', blank_heap)) \<and>
      ReadWord recording (mmu', blank_heap) 0xC000 = Inr (0x1234, (mmu', blank_heap))) \<and>
   peripheralIOMap NewGbcMMU 0xFFFE = None \<and> peripheralIOMap NewGbcMMU (0xFFFE + 1) = None \<and>
   (0xFF80 :: Word) \<le> 0xFFFE \<and> (0xFFFE :: Word) \<le> 0xFFFE \<and>
   (\<exists>mmu'. WriteWord recording (NewGbcMMU, blank_heap) 0xFFFE 0xBEEF = Inr (mmu', blank_heap) \<and>
      ReadByte recording (mmu', blank_heap) 0xFFFE = Inr (0xEF, (mmu', blank_heap)) \<and>
      ReadByte recording (mmu', blank_heap) (0xFFFE + 1) = Inr (0xBE, (mmu', blank_heap)) \<and>
      ReadWord recording (mmu', blank_heap) 0xFFFE = Inr (0xBEEF, (mmu', blank_heap)))"
proof -
  let ?st = "(NewGbcMMU\<lparr>internalRAM := (internalRAM NewGbcMMU)[0 := 0x34, 1 := 0x12]\<rparr>,
    blank_heap)"
  have r1: "ReadByte recording ?st 0xC000 = Inr (0x34, ?st)"
    by (simp add: ReadByte_def and_then_def array_get_def NewGbcMMU_fields)
  have r2: "ReadByte recording ?st (0xC000 + 1) = Inr (0x12, ?st)"
    by (simp add: ReadByte_def and_then_def array_get_def NewGbcMMU_fields)
  have s: "array_sizes NewGbcMMU"
    by (simp add: array_sizes_def NewGbcMMU_def Reset_def)
  have c: "peripheralIOMap NewGbcMMU 0xC000 = None" "peripheralIOMap NewGbcMMU (0xC000 + 1) = None"
    "(0xC000 :: Word) \<le> 0xC000" "(0xC000 :: Word) \<le> 0xDFFE"
    by (simp_all add: NewGbcMMU_def Reset_def)
  have f: "peripheralIOMap NewGbcMMU 0xFFFE = None" "peripheralIOMap NewGbcMMU (0xFFFE + 1) = None"
    "(0xFF80 :: Word) \<le> 0xFFFE" "(0xFFFE :: Word) \<le> 0xFFFE"
    by (simp_all add: NewGbcMMU_def Reset_def)
  have lo: "(ucast (0x1234 :: Word) :: byte) = 0x34" "(ucast (0xBEEF :: Word) :: byte) = 0xEF"
    by simp_all
  have hi: "(ucast (drop_bit 8 (0x1234 :: Word)) :: byte) = 0x12"
    "(ucast (drop_bit 8 (0xBEEF :: Word)) :: byte) = 0xBE"
    by simp_all
  note T = word_operations_little_endian[where X = recording and st = "?st" and a = "0xC000"
      and lo = "0x34" and st' = "?st" and hi = "0x12" and st'' = "?st"
      and mmu = NewGbcMMU and b = "0xC000" and h = blank_heap and v = "0x1234"]
  note U = word_operations_little_endian[where X = recording and st = "?st" and a = "0xC000"
      and lo = "0x34" and st' = "?st" and hi = "0x12" and st'' = "?st"
      and mmu = NewGbcMMU and b = "0xFFFE" and h = blank_heap and v = "0xBEEF"]
  have rd: "\<exists>w. ReadWord recording ?st 0xC000 = Inr (w, ?st) \<and>
      (ucast w :: byte) = 0x34 \<and> (ucast (drop_bit 8 w) :: byte) = 0x12"
    using T r1 r2 by blast
  have "\<exists>mmu'. WriteWord recording (NewGbcMMU, blank_heap) 0xC000 0x1234 = Inr (mmu', blank_heap) \<and>
      ReadByte recording (mmu', blank_heap) 0xC000 =
        Inr (ucast (0x1234 :: Word), (mmu', blank_heap)) \<and>
      ReadByte recording (mmu', blank_heap) (0xC000 + 1) =
        Inr (ucast (drop_bit 8 (0x1234 :: Word)), (mmu', blank_heap)) \<and>
      ReadWord recording (mmu', blank_heap) 0xC000 = Inr (0x1234, (mmu', blank_heap))"
    using T s c by blast
  then have w1: "\<exists>mmu'. WriteWord recording (NewGbcMMU, blank_heap) 0xC000 0x1234 =
        Inr (mmu', blank_heap) \<and>
      ReadByte recording (mmu', blank_heap) 0xC000 = Inr (0x34, (mmu', blank_heap)) \<and>
      ReadByte recording (mmu', blank_heap) (0xC000 + 1) = Inr (0x12, (mmu', blank_heap)) \<and>
      ReadWord recording (mmu', blank_heap) 0xC000 = Inr (0x1234, (mmu', blank_heap))"
    by (simp only: lo hi)
  have "\<exists>mmu'. WriteWord recording (NewGbcMMU, blank_heap) 0xFFFE 0xBEEF = Inr (mmu', blank_heap) \<and>
      ReadByte recording (mmu', blank_heap) 0xFFFE =
        Inr (ucast (0xBEEF :: Word), (mmu', blank_heap)) \<and>
      ReadByte recording (mmu', blank_heap) (0xFFFE + 1) =
        Inr (ucast (drop_bit 8 (0xBEEF :: Word)), (mmu', blank_heap)) \<and>
      ReadWord recording (mmu', blank_heap) 0xFFFE = Inr (0xBEEF, (mmu', blank_heap))"
    using U s f by blast
  then have w2: "\<exists>mmu'. WriteWord recording (NewGbcMMU, blank_heap) 0xFFFE 0xBEEF =
        Inr (mmu', blank_heap) \<and>
      ReadByte recording (mmu', blank_heap) 0xFFFE = Inr (0xEF, (mmu', blank_heap)) \<and>
      ReadByte recording (mmu', blank_heap) (0xFFFE + 1) = Inr (0xBE, (mmu', blank_heap)) \<and>
      ReadWord recording (mmu', blank_heap) 0xFFFE = Inr (0xBEEF, (mmu', blank_heap))"
    by (simp only: lo hi)
  show ?thesis
    using r1 r2 rd s c w1 f w2 by blast
qed

text \<open>
  C8. \<open>LoadBIOS\<close> with at most 256 bytes succeeds and copies them into the overlay from
  offset 0, the bytes behind them staying as they were; with more than 256 bytes it
  fails with the error and leaves the whole MMU, overlay included, as it was.
\<close>

theorem LoadBIOS_all_or_nothing:
  assumes "array_sizes mmu"
  shows "LoadBIOS mmu data =
    (if length data \<le> 256
     then Inr ((True, None), mmu\<lparr>bios := data @ drop (length data) (bios mmu)\<rparr>)
     else Inr ((False, Some ROMIsBiggerThanRegion), mmu))"
proof -
  have l: "length (bios mmu) = 256" using assms by (simp add: array_sizes_def)
  show ?thesis
  proof (cases "length data \<le> 256")
    case True
    then have "LoadBIOS_loop (bios mmu) 0 data = Inr (data @ drop (length data) (bios mmu))"
      using LoadBIOS_loop_copies[of 0 data "bios mmu"] l by simp
    with True show ?thesis by (simp add: LoadBIOS_def l and_then_def)
  next
    case False
    then show ?thesis by (simp add: LoadBIOS_def l)
  qed
qed

theorem LoadBIOS_all_or_nothing_witness:
  "array_sizes NewGbcMMU \<and>
   LoadBIOS NewGbcMMU [0x31, 0xFE, 0xFF] =
     Inr ((True, None), NewGbcMMU\<lparr>bios := [0x31, 0xFE, 0xFF] @ replicate 253 0\<rparr>) \<and>
   LoadBIOS NewGbcMMU (replicate 257 0xAA) = Inr ((False, Some ROMIsBiggerThanRegion), NewGbcMMU)"
proof -
  have h: "array_sizes NewGbcMMU"
    by (simp add: array_sizes_def NewGbcMMU_def Reset_def)
  show ?thesis
    using h LoadBIOS_all_or_nothing[OF h, of "[0x31, 0xFE, 0xFF]"]
      LoadBIOS_all_or_nothing[OF h, of "replicate 257 0xAA"]
    by (simp add: NewGbcMMU_fields)
qed

text \<open>
  C9. \<open>Reset\<close> sets the boot-mode flag and clears the interrupt-flag register, and
  changes nothing else: the peripheral map, the cartridge pointer, the boot overlay,
  work RAM, echo RAM, zero-page RAM, the reserved scratch, the DMG status register and
  the interrupt-enable register are as before. (\<open>Reset\<close> has no access to the heap of
  cartridge and peripheral objects.)
\<close>

theorem Reset_frame:
  "inBootMode (Reset mmu) = True \<and> interruptsFlag (Reset mmu) = 0x00 \<and>
   peripheralIOMap (Reset mmu) = peripheralIOMap mmu \<and>
   cartridge (Reset mmu) = cartridge mmu \<and>
   bios (Reset mmu) = bios mmu \<and>
   internalRAM (Reset mmu) = internalRAM mmu \<and>
   internalRAMShadow (Reset mmu) = internalRAMShadow mmu \<and>
   zeroPageRAM (Reset mmu) = zeroPageRAM mmu \<and>
   emptySpace (Reset mmu) = emptySpace mmu \<and>
   dmgStatusRegister (Reset mmu) = dmgStatusRegister mmu \<and>
   interruptsEnabled (Reset mmu) = interruptsEnabled mmu \<and>
   Reset mmu = mmu\<lparr>inBootMode := True, interruptsFlag := 0x00\<rparr>"
  by (simp add: Reset_def)

text \<open>
  C10. \<open>ConnectPeripheral\<close> should return for every range with
  \<open>startAddr \<le> endAddr\<close>, also when \<open>endAddr = 0xFFFF\<close>. Called on a new MMU with
  the range \<open>0xFF80\<close> to \<open>0xFFFF\<close> it never returns: the counter wraps from
  \<open>0xFFFF\<close> to \<open>0\<close> and the test \<open>addr \<le> 0xFFFF\<close> holds for every 16-bit value.
\<close>

theorem ConnectPeripheral_to_0xFFFF_never_returns:
  "ConnectPeripheral NewGbcMMU 0 0xFF80 0xFFFF = None"
  by (simp add: ConnectPeripheral_def ConnectPeripheral_loop_diverges)

end
